theory Spec2Isabelle
  imports Main "HOL-Library.Word"
begin

unbundle bit_operations_syntax

text \<open>
  A shallow embedding of the key codec (\<^verbatim>\<open>key/key.go\<close>), of the two accounts
  (\<^verbatim>\<open>account/main.go\<close>, \<^verbatim>\<open>account/full.go\<close>, \<^verbatim>\<open>account/from_address.go\<close>) and of the word
  counts of the wallet, with the properties of the specification that concern them.
  A Go function that returns \<^verbatim>\<open>(value, error)\<close> is a function into \<open>error + value\<close>; a panic
  is the error \<open>Panic\<close>.
\<close>

section \<open>Data model\<close>

type_synonym byte = "8 word"

text \<open>\<^verbatim>\<open>type VersionByte byte\<close> (key/key.go).\<close>

type_synonym VersionByte = byte

definition VersionByteAccountID :: VersionByte where
  "VersionByteAccountID = 0xdd"

definition VersionByteSeed :: VersionByte where
  "VersionByteSeed = 0xff"

text \<open>
  The error values of the three packages. The sentinels of the source
  (\<^verbatim>\<open>ErrInvalidVersionByte\<close>, \<^verbatim>\<open>ErrInvalidSignature\<close>, ...) are constructors without
  arguments; the two errors that \<^verbatim>\<open>decodeString\<close> builds with \<^verbatim>\<open>fmt.Errorf\<close> carry what
  the message is formatted from. \<^verbatim>\<open>ChecksumMismatch\<close> is the failure of the checksum
  validation, \<^verbatim>\<open>ExternalError\<close> an error returned by a library outside the repository, and
  \<^verbatim>\<open>Panic\<close> wraps the value a \<^verbatim>\<open>Must...\<close> helper panics with.
\<close>

datatype error =
    ErrInvalidVersionByte
  | Base58DecodeFailed string
  | EncodedValueTooShort nat
  | ChecksumMismatch
  | ErrInvalidKey
  | ErrInvalidSignature
  | ErrNoSeed
  | ErrCannotSign
  | ErrCannotDecrypt
  | ErrInvalidWordCount
  | ExternalError string
  | Panic error

section \<open>Code outside the sources, as parameters\<close>

text \<open>
  \<^verbatim>\<open>key.go\<close> calls the base58 codec of \<^verbatim>\<open>github.com/mr-tron/base58\<close> (an external library)
  and the \<^verbatim>\<open>crc16\<close> package of this repository, whose file is not among the sources.
  Both are parameters of the model: every function of the \<^verbatim>\<open>key\<close> package takes the record
  below and the theorems say which contract of the parameters they rely on, if any.
\<close>

record codec =
  FastBase58Encoding :: "byte list \<Rightarrow> string"
  FastBase58Decoding :: "string \<Rightarrow> string + byte list"
  crc16_Checksum :: "byte list \<Rightarrow> byte list"

text \<open>
  Modelled from the spec: \<^verbatim>\<open>crc16.Validate\<close> is missing from the sources. Section 4.1 gives
  its contract, \<^verbatim>\<open>validate(bytes, checksum) -> ok/fail\<close>, and section 3 says what is rejected:
  a string "whose trailing two bytes do not equal the checksum of the preceding bytes". The
  failure is the \<^verbatim>\<open>ChecksumMismatch\<close> of section 7. \<^verbatim>\<open>None\<close> is Go's \<^verbatim>\<open>nil\<close> error.
\<close>

definition crc16_Validate :: "codec \<Rightarrow> byte list \<Rightarrow> byte list \<Rightarrow> error option" where
  "crc16_Validate c data expected =
     (if crc16_Checksum c data = expected then None else Some ChecksumMismatch)"

section \<open>Package key\<close>

text \<open>\<^verbatim>\<open>checkValidVersionByte\<close>: \<^verbatim>\<open>nil\<close> for the two defined constants, the sentinel otherwise.\<close>

definition checkValidVersionByte :: "VersionByte \<Rightarrow> error option" where
  "checkValidVersionByte version =
     (if version = VersionByteAccountID then None
      else if version = VersionByteSeed then None
      else Some ErrInvalidVersionByte)"

text \<open>
  \<^verbatim>\<open>decodeString\<close>: the base58 decoding, then the minimum length of 3 (a version byte and two
  checksum bytes).
\<close>

definition decodeString :: "codec \<Rightarrow> string \<Rightarrow> error + byte list" where
  "decodeString c src =
     (case FastBase58Decoding c src of
        Inl err \<Rightarrow> Inl (Base58DecodeFailed err)
      | Inr raw \<Rightarrow>
          if length raw < 3 then Inl (EncodedValueTooShort (length raw))
          else Inr raw)"

text \<open>
  \<^verbatim>\<open>Decode\<close>. The slices \<^verbatim>\<open>raw[0 : len(raw)-2]\<close>, \<^verbatim>\<open>raw[1 : len(raw)-2]\<close> and
  \<^verbatim>\<open>raw[len(raw)-2:]\<close> are in range because \<^verbatim>\<open>decodeString\<close> returned at least 3 bytes.
\<close>

definition Decode :: "codec \<Rightarrow> VersionByte \<Rightarrow> string \<Rightarrow> error + byte list" where
  "Decode c expected src =
     (case checkValidVersionByte expected of
        Some err \<Rightarrow> Inl err
      | None \<Rightarrow>
          (case decodeString c src of
             Inl err \<Rightarrow> Inl err
           | Inr raw \<Rightarrow>
               (let version = raw ! 0;
                    vp = take (length raw - 2) raw;
                    payload = drop 1 (take (length raw - 2) raw);
                    checksum = drop (length raw - 2) raw
                in if version \<noteq> expected then Inl ErrInvalidVersionByte
                   else (case crc16_Validate c vp checksum of
                           Some err \<Rightarrow> Inl err
                         | None \<Rightarrow> Inr payload))))"

definition MustDecode :: "codec \<Rightarrow> VersionByte \<Rightarrow> string \<Rightarrow> error + byte list" where
  "MustDecode c expected src =
     (case Decode c expected src of Inl err \<Rightarrow> Inl (Panic err) | Inr d \<Rightarrow> Inr d)"

text \<open>
  \<^verbatim>\<open>Encode\<close>. The writes go to a \<^verbatim>\<open>bytes.Buffer\<close> and return no error; \<^verbatim>\<open>binary.Write\<close> of a
  \<^verbatim>\<open>VersionByte\<close> writes its one byte.
\<close>

definition Encode :: "codec \<Rightarrow> VersionByte \<Rightarrow> byte list \<Rightarrow> error + string" where
  "Encode c version src =
     (case checkValidVersionByte version of
        Some err \<Rightarrow> Inl err
      | None \<Rightarrow>
          (let raw = [version] @ src;
               checksum = crc16_Checksum c raw
           in Inr (FastBase58Encoding c (raw @ checksum))))"

definition MustEncode :: "codec \<Rightarrow> VersionByte \<Rightarrow> byte list \<Rightarrow> error + string" where
  "MustEncode c version src =
     (case Encode c version src of Inl err \<Rightarrow> Inl (Panic err) | Inr e \<Rightarrow> Inr e)"

definition Version :: "codec \<Rightarrow> string \<Rightarrow> error + VersionByte" where
  "Version c src =
     (case decodeString c src of Inl err \<Rightarrow> Inl err | Inr raw \<Rightarrow> Inr (raw ! 0))"

section \<open>Package account\<close>

text \<open>
  The ed25519 primitives (\<^verbatim>\<open>golang.org/x/crypto/ed25519\<close>), the key unmarshalling of libp2p
  and the decryption of \<^verbatim>\<open>go-textile/crypto\<close> are external libraries. They are parameters
  as well. \<^verbatim>\<open>ed25519_GenerateKey\<close> is given the bytes its reader holds.
\<close>

record crypto =
  ed25519_GenerateKey :: "byte list \<Rightarrow> error + (byte list \<times> byte list)"
  ed25519_Sign :: "byte list \<Rightarrow> byte list \<Rightarrow> byte list"
  ed25519_Verify :: "byte list \<Rightarrow> byte list \<Rightarrow> byte list \<Rightarrow> bool"
  UnmarshalEd25519PrivateKey :: "byte list \<Rightarrow> error + byte list"
  crypto_Decrypt :: "byte list \<Rightarrow> byte list \<Rightarrow> error + byte list"

definition ed25519_PublicKeySize :: nat where
  "ed25519_PublicKeySize = 32"

definition ed25519_PrivateKeySize :: nat where
  "ed25519_PrivateKeySize = 64"

definition ed25519_SignatureSize :: nat where
  "ed25519_SignatureSize = 64"

text \<open>
  Go's \<^verbatim>\<open>copy(dst, src)\<close>: the first \<open>min (len dst) (len src)\<close> elements of \<open>dst\<close> are
  overwritten; the result is the new content of \<open>dst\<close>.
\<close>

definition go_copy :: "'a list \<Rightarrow> 'a list \<Rightarrow> 'a list" where
  "go_copy dst src = take (length dst) src @ drop (length src) dst"

text \<open>The two structs that implement the \<^verbatim>\<open>Account\<close> interface, and the interface value.\<close>

record Full =
  seed :: string

record FromAddress =
  address :: string

datatype Account = Account_Full Full | Account_FromAddress FromAddress

subsection \<open>\<^verbatim>\<open>from_address.go\<close>\<close>

definition FromAddress_publicKey :: "codec \<Rightarrow> FromAddress \<Rightarrow> error + byte list" where
  "FromAddress_publicKey c kp =
     (case MustDecode c VersionByteAccountID (address kp) of
        Inl err \<Rightarrow> Inl err
      | Inr bytes \<Rightarrow> Inr (go_copy (replicate ed25519_PublicKeySize 0) bytes))"

definition FromAddress_Seed :: "FromAddress \<Rightarrow> error + string" where
  "FromAddress_Seed kp = Inl ErrNoSeed"

text \<open>
  \<^verbatim>\<open>Verify\<close>: the length of \<open>sig\<close> is compared with \<^verbatim>\<open>ed25519.PrivateKeySize\<close> first; the
  public key is decoded (and \<^verbatim>\<open>MustDecode\<close> may panic) only after that.
\<close>

definition FromAddress_Verify ::
  "codec \<Rightarrow> crypto \<Rightarrow> FromAddress \<Rightarrow> byte list \<Rightarrow> byte list \<Rightarrow> error + unit" where
  "FromAddress_Verify c k kp input sig =
     (if length sig \<noteq> ed25519_PrivateKeySize then Inl ErrInvalidSignature
      else let asig = go_copy (replicate ed25519_PrivateKeySize 0) sig
           in (case FromAddress_publicKey c kp of
                 Inl err \<Rightarrow> Inl err
               | Inr pub \<Rightarrow>
                   if \<not> ed25519_Verify k pub input asig then Inl ErrInvalidSignature
                   else Inr ()))"

definition FromAddress_Sign :: "FromAddress \<Rightarrow> byte list \<Rightarrow> error + byte list" where
  "FromAddress_Sign kp input = Inl ErrCannotSign"

definition FromAddress_Decrypt :: "FromAddress \<Rightarrow> byte list \<Rightarrow> error + byte list" where
  "FromAddress_Decrypt kp input = Inl ErrCannotDecrypt"

subsection \<open>\<^verbatim>\<open>full.go\<close>\<close>

definition Full_rawSeed :: "codec \<Rightarrow> Full \<Rightarrow> error + byte list" where
  "Full_rawSeed c kp = MustDecode c VersionByteSeed (seed kp)"

text \<open>\<^verbatim>\<open>keys\<close> panics when \<^verbatim>\<open>ed25519.GenerateKey\<close> returns an error.\<close>

definition Full_keys :: "codec \<Rightarrow> crypto \<Rightarrow> Full \<Rightarrow> error + (byte list \<times> byte list)" where
  "Full_keys c k kp =
     (case Full_rawSeed c kp of
        Inl err \<Rightarrow> Inl err
      | Inr reader \<Rightarrow>
          (case ed25519_GenerateKey k reader of
             Inl err \<Rightarrow> Inl (Panic err)
           | Inr (pub, priv) \<Rightarrow> Inr (pub, priv)))"

definition Full_publicKey :: "codec \<Rightarrow> crypto \<Rightarrow> Full \<Rightarrow> error + byte list" where
  "Full_publicKey c k kp =
     (case Full_keys c k kp of Inl err \<Rightarrow> Inl err | Inr (pub, priv) \<Rightarrow> Inr pub)"

definition Full_Seed :: "Full \<Rightarrow> error + string" where
  "Full_Seed kp = Inr (seed kp)"

definition Full_Verify ::
  "codec \<Rightarrow> crypto \<Rightarrow> Full \<Rightarrow> byte list \<Rightarrow> byte list \<Rightarrow> error + unit" where
  "Full_Verify c k kp input sig =
     (if length sig \<noteq> ed25519_PrivateKeySize then Inl ErrInvalidSignature
      else let asig = go_copy (replicate ed25519_PrivateKeySize 0) sig
           in (case Full_publicKey c k kp of
                 Inl err \<Rightarrow> Inl err
               | Inr pub \<Rightarrow>
                   if \<not> ed25519_Verify k pub input asig then Inl ErrInvalidSignature
                   else Inr ()))"

definition Full_Sign :: "codec \<Rightarrow> crypto \<Rightarrow> Full \<Rightarrow> byte list \<Rightarrow> error + byte list" where
  "Full_Sign c k kp input =
     (case Full_keys c k kp of
        Inl err \<Rightarrow> Inl err
      | Inr (pub, priv) \<Rightarrow> Inr (ed25519_Sign k priv input))"

text \<open>
  \<^verbatim>\<open>LibP2PPrivKey\<close>: a buffer of 64 bytes receives the raw seed, then the public key from
  offset 32, and is unmarshalled.
\<close>

definition Full_LibP2PPrivKey :: "codec \<Rightarrow> crypto \<Rightarrow> Full \<Rightarrow> error + byte list" where
  "Full_LibP2PPrivKey c k kp =
     (case Full_rawSeed c kp of
        Inl err \<Rightarrow> Inl err
      | Inr rawSeed \<Rightarrow>
          (let buf = go_copy (replicate ed25519_PrivateKeySize 0) rawSeed
           in (case Full_publicKey c k kp of
                 Inl err \<Rightarrow> Inl err
               | Inr pub \<Rightarrow>
                   (let off = ed25519_PrivateKeySize - ed25519_PublicKeySize;
                        buf' = take off buf @ go_copy (drop off buf) pub
                    in UnmarshalEd25519PrivateKey k buf'))))"

definition Full_Decrypt :: "codec \<Rightarrow> crypto \<Rightarrow> Full \<Rightarrow> byte list \<Rightarrow> error + byte list" where
  "Full_Decrypt c k kp input =
     (case Full_LibP2PPrivKey c k kp of
        Inl err \<Rightarrow> Inl err
      | Inr priv \<Rightarrow> crypto_Decrypt k priv input)"

subsection \<open>The interface: a call goes to the method of the struct the value holds\<close>

fun Seed :: "Account \<Rightarrow> error + string" where
  "Seed (Account_Full kp) = Full_Seed kp"
| "Seed (Account_FromAddress kp) = FromAddress_Seed kp"

fun Verify :: "codec \<Rightarrow> crypto \<Rightarrow> Account \<Rightarrow> byte list \<Rightarrow> byte list \<Rightarrow> error + unit" where
  "Verify c k (Account_Full kp) input sig = Full_Verify c k kp input sig"
| "Verify c k (Account_FromAddress kp) input sig = FromAddress_Verify c k kp input sig"

fun Sign :: "codec \<Rightarrow> crypto \<Rightarrow> Account \<Rightarrow> byte list \<Rightarrow> error + byte list" where
  "Sign c k (Account_Full kp) input = Full_Sign c k kp input"
| "Sign c k (Account_FromAddress kp) input = FromAddress_Sign kp input"

fun Decrypt :: "codec \<Rightarrow> crypto \<Rightarrow> Account \<Rightarrow> byte list \<Rightarrow> error + byte list" where
  "Decrypt c k (Account_Full kp) input = Full_Decrypt c k kp input"
| "Decrypt c k (Account_FromAddress kp) input = FromAddress_Decrypt kp input"

subsection \<open>\<^verbatim>\<open>main.go\<close>\<close>

text \<open>
  \<^verbatim>\<open>Parse\<close> (the same function in both versions of \<^verbatim>\<open>main.go\<close>). The comparison
  \<^verbatim>\<open>err != key.ErrInvalidVersionByte\<close> is with the sentinel; the errors of \<^verbatim>\<open>decodeString\<close> and
  of the checksum validation are other values.
\<close>

definition Parse :: "codec \<Rightarrow> string \<Rightarrow> error + Account" where
  "Parse c addressOrSeed =
     (case Decode c VersionByteAccountID addressOrSeed of
        Inr _ \<Rightarrow> Inr (Account_FromAddress \<lparr>address = addressOrSeed\<rparr>)
      | Inl err \<Rightarrow>
          if err \<noteq> ErrInvalidVersionByte then Inl err
          else (case Decode c VersionByteSeed addressOrSeed of
                  Inr _ \<Rightarrow> Inr (Account_Full \<lparr>seed = addressOrSeed\<rparr>)
                | Inl err' \<Rightarrow> Inl err'))"

definition MustParse :: "codec \<Rightarrow> string \<Rightarrow> error + Account" where
  "MustParse c addressOrSeed =
     (case Parse c addressOrSeed of Inl err \<Rightarrow> Inl (Panic err) | Inr kp \<Rightarrow> Inr kp)"

definition FromRawSeed :: "codec \<Rightarrow> byte list \<Rightarrow> error + Full" where
  "FromRawSeed c rawSeed =
     (case Encode c VersionByteSeed rawSeed of
        Inl err \<Rightarrow> Inl err
      | Inr s \<Rightarrow> Inr \<lparr>seed = s\<rparr>)"

section \<open>Package wallet\<close>

text \<open>\<^verbatim>\<open>type WordCount int\<close> and its five constants.\<close>

type_synonym WordCount = int

definition TwelveWords :: WordCount where "TwelveWords = 12"
definition FifteenWords :: WordCount where "FifteenWords = 15"
definition EighteenWords :: WordCount where "EighteenWords = 18"
definition TwentyOneWords :: WordCount where "TwentyOneWords = 21"
definition TwentyFourWords :: WordCount where "TwentyFourWords = 24"

definition NewWordCount :: "int \<Rightarrow> error + WordCount" where
  "NewWordCount count =
     (if count = 12 then Inr TwelveWords
      else if count = 15 then Inr FifteenWords
      else if count = 18 then Inr EighteenWords
      else if count = 21 then Inr TwentyOneWords
      else if count = 24 then Inr TwentyFourWords
      else Inl ErrInvalidWordCount)"

definition EntropySize :: "WordCount \<Rightarrow> int" where
  "EntropySize w =
     (if w = TwelveWords then 128
      else if w = FifteenWords then 160
      else if w = EighteenWords then 192
      else if w = TwentyOneWords then 224
      else if w = TwentyFourWords then 256
      else 256)"

text \<open>
  \<^verbatim>\<open>github.com/tyler-smith/go-bip39\<close> is external. \<^verbatim>\<open>NewEntropy\<close> reads the system's random
  source: it takes the state \<open>'s\<close> of that source and returns the state after its reads.
\<close>

record 's bip39 =
  bip39_NewEntropy :: "int \<Rightarrow> 's \<Rightarrow> (error + byte list) \<times> 's"
  bip39_NewMnemonic :: "byte list \<Rightarrow> error + string"

record Wallet =
  RecoveryPhrase :: string

definition FromEntropy :: "'s bip39 \<Rightarrow> int \<Rightarrow> 's \<Rightarrow> (error + Wallet) \<times> 's" where
  "FromEntropy b entropySize rnd =
     (case bip39_NewEntropy b entropySize rnd of
        (Inl err, rnd') \<Rightarrow> (Inl err, rnd')
      | (Inr entropy, rnd') \<Rightarrow>
          (case bip39_NewMnemonic b entropy of
             Inl err \<Rightarrow> (Inl err, rnd')
           | Inr mnemonic \<Rightarrow> (Inr \<lparr>RecoveryPhrase = mnemonic\<rparr>, rnd')))"

definition FromWordCount :: "'s bip39 \<Rightarrow> int \<Rightarrow> 's \<Rightarrow> (error + Wallet) \<times> 's" where
  "FromWordCount b wordCount rnd =
     (case NewWordCount wordCount of
        Inl err \<Rightarrow> (Inl err, rnd)
      | Inr wcount \<Rightarrow> FromEntropy b (EntropySize wcount) rnd)"

definition FromMnemonic :: "string \<Rightarrow> Wallet" where
  "FromMnemonic mnemonic = \<lparr>RecoveryPhrase = mnemonic\<rparr>"

section \<open>Reference instances of the parameters\<close>

text \<open>
  The theorems below hold for every codec, or for every codec that satisfies a stated
  contract. The instances of this section show that the contracts can be met and give the
  concrete inputs on which the theorems are exercised.
\<close>

subsection \<open>Base58 with the Bitcoin alphabet\<close>

text \<open>
  The alphabet that \<^verbatim>\<open>FastBase58Encoding\<close> and \<^verbatim>\<open>FastBase58Decoding\<close> use. A leading zero byte
  is written as the digit \<^verbatim>\<open>1\<close>; the other bytes are read as one big-endian number and
  written in base 58. Decoding the empty string is an error of the library.
\<close>

definition base58_alphabet :: string where
  "base58_alphabet = ''123456789ABCDEFGHJKLMNPQRSTUVWXYZabcdefghijkmnopqrstuvwxyz''"

fun digit_index :: "'a list \<Rightarrow> 'a \<Rightarrow> nat option" where
  "digit_index [] c = None"
| "digit_index (x # xs) c = (if x = c then Some 0 else map_option Suc (digit_index xs c))"

definition digits_value :: "nat \<Rightarrow> nat list \<Rightarrow> nat" where
  "digits_value b ds = foldl (\<lambda>a d. a * b + d) 0 ds"

function digits_of :: "nat \<Rightarrow> nat \<Rightarrow> nat list" where
  "digits_of b n = (if n = 0 \<or> b < 2 then [] else digits_of b (n div b) @ [n mod b])"
  by pat_completeness auto
termination
  by (relation "measure snd") auto

definition leading_zeros :: "'a::zero list \<Rightarrow> nat" where
  "leading_zeros xs = length (takeWhile (\<lambda>x. x = 0) xs)"

definition base58_encode :: "byte list \<Rightarrow> string" where
  "base58_encode bin =
     map (\<lambda>d. base58_alphabet ! d)
       (replicate (leading_zeros bin) 0 @ digits_of 58 (digits_value 256 (map unat bin)))"

definition base58_decode :: "string \<Rightarrow> string + byte list" where
  "base58_decode str =
     (if str = [] then Inl ''zero length string''
      else case those (map (digit_index base58_alphabet) str) of
             None \<Rightarrow> Inl ''invalid base58 digit''
           | Some ds \<Rightarrow>
               Inr (replicate (leading_zeros ds) 0 @
                    map of_nat (digits_of 256 (digits_value 58 ds))))"

subsection \<open>CRC-16/XMODEM\<close>

text \<open>
  Modelled from the spec: the \<^verbatim>\<open>crc16\<close> package is missing from the sources and section 4.1
  asks for \<^verbatim>\<open>checksum(bytes) -> 2 bytes\<close>, "any standard 16-bit cyclic-redundancy algorithm".
  The instance is the CRC with polynomial \<^verbatim>\<open>0x1021\<close> and initial value 0, computed bit by
  bit, its low byte first.
\<close>

definition crc16_step :: "16 word \<Rightarrow> 16 word" where
  "crc16_step crc = (if bit crc 15 then push_bit 1 crc XOR 0x1021 else push_bit 1 crc)"

definition crc16_update :: "16 word \<Rightarrow> byte \<Rightarrow> 16 word" where
  "crc16_update crc b =
     crc16_step (crc16_step (crc16_step (crc16_step
       (crc16_step (crc16_step (crc16_step (crc16_step
         (crc XOR push_bit 8 (ucast b)))))))))"

definition crc16_xmodem :: "byte list \<Rightarrow> byte list" where
  "crc16_xmodem data =
     (let crc = foldl crc16_update 0 data in [ucast crc, ucast (drop_bit 8 crc)])"

definition reference_codec :: codec where
  "reference_codec =
     \<lparr>FastBase58Encoding = base58_encode, FastBase58Decoding = base58_decode,
      crc16_Checksum = crc16_xmodem\<rparr>"

subsection \<open>Placeholders for the cryptographic libraries\<close>

text \<open>
  The theorems about signatures below hold for every value of the \<^verbatim>\<open>crypto\<close> parameter. To
  exercise them on a concrete input a value is needed. This one is not a signature scheme
  of any strength: the key generation reads 32 bytes and fails on a shorter reader, every
  signature is 64 zero bytes, and the verification accepts exactly that signature.
\<close>

definition placeholder_crypto :: crypto where
  "placeholder_crypto =
     \<lparr>ed25519_GenerateKey =
        (\<lambda>reader. if length reader < 32 then Inl (ExternalError ''unexpected EOF'')
                   else Inr (take 32 reader, take 32 reader @ take 32 reader)),
      ed25519_Sign = (\<lambda>priv message. replicate 64 0),
      ed25519_Verify = (\<lambda>pub message sig. sig = replicate 64 0),
      UnmarshalEd25519PrivateKey = (\<lambda>data. Inr data),
      crypto_Decrypt = (\<lambda>priv input. Inl (ExternalError ''decryption failed''))\<rparr>"


text \<open>
  A random source that is a counter of the calls made to it, and delivers zero bytes.
\<close>

definition counting_bip39 :: "nat bip39" where
  "counting_bip39 =
     \<lparr>bip39_NewEntropy = (\<lambda>bitSize n. (Inr (replicate (nat (bitSize div 8)) 0), Suc n)),
      bip39_NewMnemonic = (\<lambda>entropy. Inr ''abandon'')\<rparr>"

section \<open>Contracts of the parameters\<close>

text \<open>
  Base58 decoding inverts base58 encoding on every non-empty byte string (the library
  rejects the empty string, which \<^verbatim>\<open>Encode\<close> never produces the encoding of).
\<close>

definition base58_round_trip :: "codec \<Rightarrow> bool" where
  "base58_round_trip c \<longleftrightarrow>
     (\<forall>bin. bin \<noteq> [] \<longrightarrow> FastBase58Decoding c (FastBase58Encoding c bin) = Inr bin)"

text \<open>The checksum has two bytes (section 4.1 of the spec).\<close>

definition checksum_two_bytes :: "codec \<Rightarrow> bool" where
  "checksum_two_bytes c \<longleftrightarrow> (\<forall>data. length (crc16_Checksum c data) = 2)"

text \<open>
  A signature made with a generated private key has the signature size and verifies
  against the public key generated with it.
\<close>

definition ed25519_sign_verify :: "crypto \<Rightarrow> bool" where
  "ed25519_sign_verify k \<longleftrightarrow>
     (\<forall>reader pub priv message.
        ed25519_GenerateKey k reader = Inr (pub, priv) \<longrightarrow>
        length (ed25519_Sign k priv message) = ed25519_SignatureSize \<and>
        ed25519_Verify k pub message (ed25519_Sign k priv message))"

section \<open>The reference codec meets the contracts\<close>

lemma digits_value_snoc: "digits_value b (ds @ [d]) = digits_value b ds * b + d"
  by (simp add: digits_value_def)

lemma digits_value_zeros: "digits_value b (replicate z 0 @ ds) = digits_value b ds"
proof -
  have "foldl (\<lambda>a d. a * b + d) 0 (replicate z 0) = 0"
    by (induction z) simp_all
  then show ?thesis by (simp add: digits_value_def)
qed

lemma digits_of_0: "digits_of b 0 = []"
  by simp

lemma digits_of_step: "2 \<le> b \<Longrightarrow> 0 < n \<Longrightarrow> digits_of b n = digits_of b (n div b) @ [n mod b]"
  by (subst digits_of.simps) simp

lemma digits_of_eq_Nil: "2 \<le> b \<Longrightarrow> digits_of b n = [] \<longleftrightarrow> n = 0"
  by (subst digits_of.simps) simp

declare digits_of.simps [simp del]

lemma digits_value_digits_of: "2 \<le> b \<Longrightarrow> digits_value b (digits_of b n) = n"
proof (induction b n rule: digits_of.induct)
  case (1 b n)
  show ?case
  proof (cases "n = 0")
    case True
    then show ?thesis by (simp add: digits_value_def digits_of_0)
  next
    case False
    with 1 have "digits_value b (digits_of b (n div b)) = n div b" by simp
    with False 1(2) show ?thesis
      by (simp add: digits_of_step digits_value_snoc)
  qed
qed

lemma digits_of_bound: "2 \<le> b \<Longrightarrow> d \<in> set (digits_of b n) \<Longrightarrow> d < b"
proof (induction b n rule: digits_of.induct)
  case (1 b n)
  show ?case
  proof (cases "n = 0")
    case True
    with 1(3) show ?thesis by (simp add: digits_of_0)
  next
    case False
    with 1 show ?thesis
      by (auto simp: digits_of_step)
  qed
qed

lemma digits_of_hd: "2 \<le> b \<Longrightarrow> digits_of b n \<noteq> [] \<Longrightarrow> hd (digits_of b n) \<noteq> 0"
proof (induction b n rule: digits_of.induct)
  case (1 b n)
  from 1(2,3) have n: "0 < n" by (simp add: digits_of_eq_Nil)
  show ?case
  proof (cases "n div b = 0")
    case True
    with n 1(2) have "digits_of b n = [n mod b]" and "n mod b = n"
      by (simp_all add: digits_of_step digits_of_0 div_eq_0_iff)
    with n show ?thesis by simp
  next
    case False
    with 1(2) have ne: "digits_of b (n div b) \<noteq> []" by (simp add: digits_of_eq_Nil)
    with 1 n have "hd (digits_of b (n div b)) \<noteq> 0" by simp
    with ne n 1(2) show ?thesis by (simp add: digits_of_step)
  qed
qed

lemma digits_value_pos:
  "ds \<noteq> [] \<Longrightarrow> hd ds \<noteq> 0 \<Longrightarrow> 0 < b \<Longrightarrow> 0 < digits_value b ds"
proof (induction ds rule: rev_induct)
  case Nil
  then show ?case by simp
next
  case (snoc x xs)
  show ?case
  proof (cases "xs = []")
    case True
    with snoc(3) show ?thesis by (simp add: digits_value_def)
  next
    case False
    with snoc have "0 < digits_value b xs" by simp
    with snoc(4) show ?thesis by (simp add: digits_value_snoc)
  qed
qed

lemma digits_of_digits_value:
  "2 \<le> b \<Longrightarrow> \<forall>d\<in>set ds. d < b \<Longrightarrow> ds = [] \<or> hd ds \<noteq> 0 \<Longrightarrow>
   digits_of b (digits_value b ds) = ds"
proof (induction ds rule: rev_induct)
  case Nil
  then show ?case by (simp add: digits_value_def digits_of_0)
next
  case (snoc x xs)
  from snoc(2,3) have x: "x < b" and b: "0 < b" by simp_all
  show ?case
  proof (cases "xs = []")
    case True
    with snoc(4) have "x \<noteq> 0" by simp
    with x True snoc(2) show ?thesis
      by (simp add: digits_value_def digits_of_step digits_of_0)
  next
    case False
    with snoc(4) have hd: "hd xs \<noteq> 0" by simp
    from False hd b have pos: "0 < digits_value b xs" by (rule digits_value_pos)
    from snoc False hd have IH: "digits_of b (digits_value b xs) = xs" by simp
    from pos b have "0 < digits_value b xs * b + x" by simp
    with snoc(2) x IH show ?thesis
      by (simp add: digits_value_snoc digits_of_step)
  qed
qed

lemma leading_zeros_split: "xs = replicate (leading_zeros xs) 0 @ dropWhile (\<lambda>x. x = 0) xs"
proof -
  have "takeWhile (\<lambda>x. x = 0) xs = replicate (leading_zeros xs) 0"
    unfolding leading_zeros_def
    by (induction xs) simp_all
  then show ?thesis
    by (metis takeWhile_dropWhile_id)
qed

lemma leading_zeros_append:
  "ys = [] \<or> hd ys \<noteq> 0 \<Longrightarrow> leading_zeros (replicate z 0 @ ys) = z"
  unfolding leading_zeros_def
  by (induction z) (auto simp: takeWhile_eq_Nil_iff neq_Nil_conv)

lemma dropWhile_hd: "dropWhile P xs = [] \<or> \<not> P (hd (dropWhile P xs))"
  by (metis hd_dropWhile)

lemma digit_index_nth:
  "distinct xs \<Longrightarrow> i < length xs \<Longrightarrow> digit_index xs (xs ! i) = Some i"
proof (induction xs arbitrary: i)
  case Nil
  then show ?case by simp
next
  case (Cons x xs)
  then show ?case by (cases i) auto
qed

lemma those_map_Some: "those (map Some xs) = Some xs"
  by (induction xs) simp_all

lemma base58_alphabet_length: "length base58_alphabet = 58"
  by (simp add: base58_alphabet_def)

lemma base58_alphabet_distinct: "distinct base58_alphabet"
  by (simp add: base58_alphabet_def)

lemma base58_digits_back:
  assumes "\<forall>d\<in>set ds. d < 58"
  shows "those (map (digit_index base58_alphabet) (map (\<lambda>d. base58_alphabet ! d) ds)) = Some ds"
proof -
  have "map (digit_index base58_alphabet) (map (\<lambda>d. base58_alphabet ! d) ds) = map Some ds"
    using assms
    by (induction ds)
      (simp_all add: digit_index_nth base58_alphabet_distinct base58_alphabet_length)
  then show ?thesis by (simp only: those_map_Some)
qed

lemma bytes_value:
  "digits_value 256 (map unat (bin :: byte list)) =
   digits_value 256 (map unat (dropWhile (\<lambda>x. x = 0) bin))"
proof -
  have "map unat bin = replicate (leading_zeros bin) 0 @ map unat (dropWhile (\<lambda>x. x = 0) bin)"
    by (subst leading_zeros_split [of bin]) simp
  then show ?thesis by (simp add: digits_value_zeros)
qed

lemma bytes_back:
  "map of_nat (digits_of 256 (digits_value 256 (map unat (dropWhile (\<lambda>x. x = 0) (bin :: byte list)))))
   = dropWhile (\<lambda>x. x = 0) bin"
proof -
  let ?r = "dropWhile (\<lambda>x. x = 0) bin"
  have "unat x < 256" for x :: byte
    by (rule order_less_le_trans [OF unsigned_less]) simp
  then have bound: "\<forall>d\<in>set (map unat ?r). d < 256"
    by auto
  have "?r = [] \<or> hd ?r \<noteq> 0"
    using dropWhile_hd [of "\<lambda>x. x = 0" bin] by simp
  then have "map unat ?r = [] \<or> hd (map unat ?r) \<noteq> 0"
    by (cases "?r = []") (simp_all add: hd_map unsigned_eq_0_iff)
  with bound have "digits_of 256 (digits_value 256 (map unat ?r)) = map unat ?r"
    by (intro digits_of_digits_value) simp_all
  then show ?thesis by (simp add: comp_def)
qed

lemma base58_decode_encode:
  assumes "bin \<noteq> []"
  shows "base58_decode (base58_encode bin) = Inr bin"
proof -
  let ?n = "digits_value 256 (map unat bin)"
  let ?ds = "replicate (leading_zeros bin) 0 @ digits_of 58 ?n"
  have lt: "\<forall>d\<in>set ?ds. d < 58"
    by (auto dest: digits_of_bound [rotated])
  have ne: "base58_encode bin \<noteq> []"
  proof (cases "leading_zeros bin = 0")
    case True
    with assms have "hd bin \<noteq> 0"
      by (cases bin) (auto simp: leading_zeros_def split: if_splits)
    with assms have "0 < digits_value 256 (map unat bin)"
      by (intro digits_value_pos) (simp_all add: hd_map unsigned_eq_0_iff)
    then have "digits_of 58 ?n \<noteq> []" by (simp add: digits_of_eq_Nil)
    then show ?thesis by (simp add: base58_encode_def)
  next
    case False
    then show ?thesis by (simp add: base58_encode_def)
  qed
  have dec_digits: "those (map (digit_index base58_alphabet) (base58_encode bin)) = Some ?ds"
    unfolding base58_encode_def using lt by (rule base58_digits_back)
  have "digits_of 58 ?n = [] \<or> hd (digits_of 58 ?n) \<noteq> 0"
    by (cases "digits_of 58 ?n = []") (simp_all add: digits_of_hd)
  then have z: "leading_zeros ?ds = leading_zeros bin"
    by (rule leading_zeros_append)
  have v: "digits_value 58 ?ds = ?n"
    by (simp add: digits_value_zeros digits_value_digits_of)
  have "base58_decode (base58_encode bin) =
        Inr (replicate (leading_zeros bin) 0 @ map of_nat (digits_of 256 ?n))"
    using ne dec_digits z v by (simp add: base58_decode_def)
  also have "map of_nat (digits_of 256 ?n) = dropWhile (\<lambda>x. x = 0) bin"
    by (subst bytes_value) (rule bytes_back)
  also have "replicate (leading_zeros bin) 0 @ dropWhile (\<lambda>x. x = 0) bin = bin"
    by (rule leading_zeros_split [symmetric])
  finally show ?thesis .
qed

lemma crc16_xmodem_length: "length (crc16_xmodem data) = 2"
  by (simp add: crc16_xmodem_def Let_def)

lemma reference_codec_round_trip: "base58_round_trip reference_codec"
  by (simp add: base58_round_trip_def reference_codec_def base58_decode_encode)

lemma reference_codec_two_bytes: "checksum_two_bytes reference_codec"
  by (simp add: checksum_two_bytes_def reference_codec_def crc16_xmodem_length)

text \<open>Unfolding these evaluates the reference codec on a concrete input.\<close>

lemmas reference_eval =
  reference_codec_def base58_decode_def base58_encode_def base58_alphabet_def
  leading_zeros_def digits_value_def digits_of.simps
  crc16_xmodem_def crc16_update_def crc16_step_def

lemmas key_eval =
  Decode_def Encode_def decodeString_def checkValidVersionByte_def crc16_Validate_def
  VersionByteAccountID_def VersionByteSeed_def Let_def

section \<open>Facts about \<^verbatim>\<open>Decode\<close> and \<^verbatim>\<open>Encode\<close>\<close>

lemma checkValidVersionByte_None:
  "checkValidVersionByte t = None \<longleftrightarrow> t = VersionByteAccountID \<or> t = VersionByteSeed"
  by (simp add: checkValidVersionByte_def)

lemma version_bytes_differ: "VersionByteAccountID \<noteq> VersionByteSeed"
  by (simp add: VersionByteAccountID_def VersionByteSeed_def)

lemma decodeString_Inr:
  "decodeString c s = Inr raw \<longleftrightarrow> FastBase58Decoding c s = Inr raw \<and> 3 \<le> length raw"
  by (auto simp: decodeString_def split: sum.splits)

lemma Decode_Inr:
  assumes "checkValidVersionByte t = None"
  shows "Decode c t s = Inr p \<longleftrightarrow>
           (\<exists>raw. FastBase58Decoding c s = Inr raw \<and> 3 \<le> length raw \<and> raw ! 0 = t \<and>
                  drop (length raw - 2) raw = crc16_Checksum c (take (length raw - 2) raw) \<and>
                  p = drop 1 (take (length raw - 2) raw))"
proof (cases "decodeString c s")
  case (Inl err)
  then have "\<And>raw. \<not> (FastBase58Decoding c s = Inr raw \<and> 3 \<le> length raw)"
    by (simp add: decodeString_Inr [symmetric])
  with Inl assms show ?thesis
    by (auto simp: Decode_def)
next
  case (Inr raw)
  then have "FastBase58Decoding c s = Inr raw" and "3 \<le> length raw"
    by (simp_all add: decodeString_Inr)
  with Inr assms show ?thesis
    by (auto simp: Decode_def Let_def crc16_Validate_def)
qed

lemma Decode_of_raw:
  assumes "checkValidVersionByte t = None"
    and "FastBase58Decoding c s = Inr (v # p @ cs)"
    and "length cs = 2"
  shows "Decode c t s =
           (if v \<noteq> t then Inl ErrInvalidVersionByte
            else if crc16_Checksum c (v # p) = cs then Inr p
            else Inl ChecksumMismatch)"
proof -
  from assms(2,3) have "decodeString c s = Inr (v # p @ cs)"
    by (simp add: decodeString_Inr)
  with assms(1,3) show ?thesis
    by (simp add: Decode_def Let_def crc16_Validate_def)
qed

lemma Encode_valid:
  assumes "checkValidVersionByte t = None"
  shows "Encode c t p = Inr (FastBase58Encoding c (t # p @ crc16_Checksum c (t # p)))"
  using assms by (simp add: Encode_def Let_def)

lemma Decode_Encode:
  assumes "base58_round_trip c" and "checksum_two_bytes c"
    and "checkValidVersionByte t = None" and "checkValidVersionByte t' = None"
  shows "Decode c t' (FastBase58Encoding c (t # p @ crc16_Checksum c (t # p))) =
           (if t \<noteq> t' then Inl ErrInvalidVersionByte else Inr p)"
proof -
  let ?raw = "t # p @ crc16_Checksum c (t # p)"
  from assms(1) have "FastBase58Decoding c (FastBase58Encoding c ?raw) = Inr ?raw"
    by (simp add: base58_round_trip_def)
  moreover from assms(2) have "length (crc16_Checksum c (t # p)) = 2"
    by (simp add: checksum_two_bytes_def)
  ultimately show ?thesis
    using assms(4) by (simp add: Decode_of_raw)
qed

section \<open>Round trip\<close>

text \<open>
  C1. For every 32-byte payload \<open>p\<close> and both version tags \<open>t\<close>, decoding with \<open>t\<close> the
  string that \<^verbatim>\<open>Encode(t, p)\<close> returns succeeds and returns \<open>p\<close>, for every base58 codec whose
  decoding inverts its encoding and every two-byte checksum.
\<close>

theorem Decode_Encode_round_trip:
  assumes "base58_round_trip c" and "checksum_two_bytes c"
    and "length p = 32"
    and "t = VersionByteAccountID \<or> t = VersionByteSeed"
  shows "(case Encode c t p of Inl err \<Rightarrow> Inl err | Inr s \<Rightarrow> Decode c t s) = Inr p"
proof -
  from assms(4) have t: "checkValidVersionByte t = None"
    by (simp add: checkValidVersionByte_None)
  then show ?thesis
    using assms(1,2) by (simp add: Encode_valid Decode_Encode)
qed

theorem Decode_Encode_round_trip_witness:
  "base58_round_trip reference_codec \<and> checksum_two_bytes reference_codec \<and>
   length (replicate 32 (0 :: byte)) = 32 \<and>
   (case Encode reference_codec VersionByteSeed (replicate 32 0) of
      Inl err \<Rightarrow> Inl err
    | Inr s \<Rightarrow> Decode reference_codec VersionByteSeed s) = Inr (replicate 32 0)"
  using Decode_Encode_round_trip [of reference_codec "replicate 32 0" VersionByteSeed]
    reference_codec_round_trip reference_codec_two_bytes
  by simp

section \<open>The version tag is validated first\<close>

text \<open>
  C10. For a byte \<open>v\<close> that is neither \<^verbatim>\<open>0xDD\<close> nor \<^verbatim>\<open>0xFF\<close>, \<^verbatim>\<open>Decode(v, s)\<close> and
  \<^verbatim>\<open>Encode(v, p)\<close> fail with \<^verbatim>\<open>ErrInvalidVersionByte\<close>, for every string, every payload and
  every base58 codec and checksum: the result does not depend on \<open>s\<close>, which is not looked
  at.
\<close>

theorem version_tag_checked_up_front:
  assumes "v \<noteq> 0xdd" and "v \<noteq> 0xff"
  shows "Decode c v s = Inl ErrInvalidVersionByte \<and> Encode c v p = Inl ErrInvalidVersionByte"
  using assms
  by (simp add: Decode_def Encode_def checkValidVersionByte_def
      VersionByteAccountID_def VersionByteSeed_def)

theorem version_tag_checked_up_front_witness:
  "(0x00 :: byte) \<noteq> 0xdd \<and> (0x00 :: byte) \<noteq> 0xff \<and>
   Decode reference_codec 0x00 ''2HWGH'' = Inl ErrInvalidVersionByte \<and>
   Encode reference_codec 0x00 [1, 2, 3] = Inl ErrInvalidVersionByte"
  using version_tag_checked_up_front [of "0x00" reference_codec "''2HWGH''" "[1, 2, 3]"]
  by simp

section \<open>What \<^verbatim>\<open>Decode\<close> rejects\<close>

text \<open>
  C5, as the claim states it, fails on a string whose base58 decoding has one or two bytes:
  \<^verbatim>\<open>decodeString\<close> checks the length before \<^verbatim>\<open>Decode\<close> looks at the leading byte. The string
  \<^verbatim>\<open>2\<close> decodes to the single byte 1, which differs from the tag \<^verbatim>\<open>0xDD\<close>, and
  \<^verbatim>\<open>Decode(AccountID, "2")\<close> fails with the length error, not with \<^verbatim>\<open>ErrInvalidVersionByte\<close>.
\<close>

theorem Decode_version_error_counterexample:
  "FastBase58Decoding reference_codec ''2'' = Inr [1] \<and>
   [1 :: byte] ! 0 \<noteq> VersionByteAccountID \<and>
   Decode reference_codec VersionByteAccountID ''2'' = Inl (EncodedValueTooShort 1) \<and>
   Decode reference_codec VersionByteAccountID ''2'' \<noteq> Inl ErrInvalidVersionByte"
proof -
  have b: "FastBase58Decoding reference_codec ''2'' = Inr [1]"
    by (simp add: reference_eval)
  then show ?thesis
    by (simp add: key_eval)
qed

text \<open>
  C5, amended. For both version tags \<open>t\<close> and every string \<open>s\<close>:
  \<^item> \<^verbatim>\<open>Decode(t, s)\<close> fails when the base58 decoding of \<open>s\<close> has fewer than 3 bytes, with the
    length error, whatever its leading byte is;
  \<^item> it fails with \<^verbatim>\<open>ErrInvalidVersionByte\<close> when the decoding has at least 3 bytes and its
    leading byte differs from \<open>t\<close>;
  \<^item> it fails when the trailing two decoded bytes are not the checksum of the bytes before
    them;
  \<^item> it succeeds only when none of these conditions holds (and, the base58 decoding given,
    it does succeed then).
\<close>

theorem Decode_rejects:
  assumes "t = VersionByteAccountID \<or> t = VersionByteSeed"
  shows
    "(\<forall>raw. FastBase58Decoding c s = Inr raw \<and> length raw < 3 \<longrightarrow>
        Decode c t s = Inl (EncodedValueTooShort (length raw))) \<and>
     (\<forall>raw. FastBase58Decoding c s = Inr raw \<and> 3 \<le> length raw \<and> raw ! 0 \<noteq> t \<longrightarrow>
        Decode c t s = Inl ErrInvalidVersionByte) \<and>
     (\<forall>raw. FastBase58Decoding c s = Inr raw \<and>
        drop (length raw - 2) raw \<noteq> crc16_Checksum c (take (length raw - 2) raw) \<longrightarrow>
        isl (Decode c t s)) \<and>
     ((\<exists>p. Decode c t s = Inr p) \<longleftrightarrow>
        (\<exists>raw. FastBase58Decoding c s = Inr raw \<and> \<not> length raw < 3 \<and> raw ! 0 = t \<and>
           drop (length raw - 2) raw = crc16_Checksum c (take (length raw - 2) raw)))"
proof -
  from assms have t: "checkValidVersionByte t = None"
    by (simp add: checkValidVersionByte_None)
  have short: "Decode c t s = Inl (EncodedValueTooShort (length raw))"
    if "FastBase58Decoding c s = Inr raw" and "length raw < 3" for raw
    using that t by (simp add: Decode_def decodeString_def)
  have version: "Decode c t s = Inl ErrInvalidVersionByte"
    if "FastBase58Decoding c s = Inr raw" and "3 \<le> length raw" and "raw ! 0 \<noteq> t" for raw
    using that t by (simp add: Decode_def decodeString_def Let_def)
  have checksum: "isl (Decode c t s)"
    if "FastBase58Decoding c s = Inr raw"
      and "drop (length raw - 2) raw \<noteq> crc16_Checksum c (take (length raw - 2) raw)" for raw
    using that t by (simp add: Decode_def decodeString_def Let_def crc16_Validate_def)
  have success: "(\<exists>p. Decode c t s = Inr p) \<longleftrightarrow>
        (\<exists>raw. FastBase58Decoding c s = Inr raw \<and> \<not> length raw < 3 \<and> raw ! 0 = t \<and>
           drop (length raw - 2) raw = crc16_Checksum c (take (length raw - 2) raw))"
    by (auto simp: Decode_Inr [OF t] not_less)
  from short version checksum success show ?thesis
    by blast
qed

text \<open>
  The witness has a string for each condition (\<^verbatim>\<open>6eeieM\<close> is \<^verbatim>\<open>6eeieN\<close> with its last
  checksum byte changed) and one that is accepted.
\<close>

theorem Decode_rejects_witness:
  "FastBase58Decoding reference_codec ''2'' = Inr [1] \<and>
   Decode reference_codec VersionByteAccountID ''2'' = Inl (EncodedValueTooShort 1) \<and>
   FastBase58Decoding reference_codec ''6eeieN'' = Inr [0xdd, 1, 90, 115] \<and>
   Decode reference_codec VersionByteSeed ''6eeieN'' = Inl ErrInvalidVersionByte \<and>
   FastBase58Decoding reference_codec ''6eeieM'' = Inr [0xdd, 1, 90, 114] \<and>
   crc16_Checksum reference_codec [0xdd, 1] = [90, 115] \<and>
   isl (Decode reference_codec VersionByteAccountID ''6eeieM'') \<and>
   (\<exists>p. Decode reference_codec VersionByteAccountID ''6eeieN'' = Inr p)"
proof -
  have b1: "FastBase58Decoding reference_codec ''2'' = Inr [1]"
    by (simp add: reference_eval)
  have b2: "FastBase58Decoding reference_codec ''6eeieN'' = Inr [0xdd, 1, 90, 115]"
    by (simp add: reference_eval)
  have b3: "FastBase58Decoding reference_codec ''6eeieM'' = Inr [0xdd, 1, 90, 114]"
    by (simp add: reference_eval)
  have c1: "crc16_Checksum reference_codec [0xdd, 1] = [90, 115]"
    by (simp add: reference_eval)
  note thm1 = Decode_rejects [of VersionByteAccountID reference_codec "''2''"]
  note thm2 = Decode_rejects [of VersionByteSeed reference_codec "''6eeieN''"]
  note thm3 = Decode_rejects [of VersionByteAccountID reference_codec "''6eeieM''"]
  note thm4 = Decode_rejects [of VersionByteAccountID reference_codec "''6eeieN''"]
  from thm1 b1
  have "Decode reference_codec VersionByteAccountID ''2'' = Inl (EncodedValueTooShort 1)"
    by simp
  moreover from thm2 b2
  have "Decode reference_codec VersionByteSeed ''6eeieN'' = Inl ErrInvalidVersionByte"
    by (simp add: VersionByteSeed_def)
  moreover from thm3 b3 c1
  have "isl (Decode reference_codec VersionByteAccountID ''6eeieM'')"
    by simp
  moreover from thm4 b2 c1
  have "\<exists>p. Decode reference_codec VersionByteAccountID ''6eeieN'' = Inr p"
    by (simp add: VersionByteAccountID_def)
  ultimately show ?thesis
    using b1 b2 b3 c1 by simp
qed

section \<open>The length of the payload\<close>

text \<open>
  C6, as the claim states it, fails: \<^verbatim>\<open>Decode\<close> has no check of the payload's length. The
  string \<^verbatim>\<open>6eeieN\<close> is what \<^verbatim>\<open>Encode\<close> returns for the one-byte payload \<^verbatim>\<open>[1]\<close>, and
  \<^verbatim>\<open>Decode\<close> accepts it and returns that one byte.
\<close>

theorem Decode_payload_32_counterexample:
  "Encode reference_codec VersionByteAccountID [1] = Inr ''6eeieN'' \<and>
   Decode reference_codec VersionByteAccountID ''6eeieN'' = Inr [1] \<and>
   length [1 :: byte] \<noteq> 32"
proof -
  have c1: "crc16_Checksum reference_codec [0xdd, 1] = [90, 115]"
    by (simp add: reference_eval)
  have e: "FastBase58Encoding reference_codec [0xdd, 1, 90, 115] = ''6eeieN''"
    by (simp add: reference_eval)
  have d: "FastBase58Decoding reference_codec ''6eeieN'' = Inr [0xdd, 1, 90, 115]"
    by (simp add: reference_eval)
  show ?thesis
    by (simp add: key_eval c1 e d)
qed

text \<open>
  C6, amended. Whenever \<^verbatim>\<open>Decode(t, s)\<close> succeeds, the payload is the base58 decoding of \<open>s\<close>
  without its first byte and its last two bytes: its length is the decoded length minus
  3, and it is 32 exactly when the decoding has 35 bytes.
\<close>

theorem Decode_payload_length:
  assumes "t = VersionByteAccountID \<or> t = VersionByteSeed"
    and "Decode c t s = Inr p"
  shows "\<exists>raw. FastBase58Decoding c s = Inr raw \<and> 3 \<le> length raw \<and>
           p = drop 1 (take (length raw - 2) raw) \<and>
           length p = length raw - 3 \<and> (length p = 32 \<longleftrightarrow> length raw = 35)"
proof -
  from assms(1) have t: "checkValidVersionByte t = None"
    by (simp add: checkValidVersionByte_None)
  from assms(2) obtain raw where raw: "FastBase58Decoding c s = Inr raw" "3 \<le> length raw"
    "p = drop 1 (take (length raw - 2) raw)"
    unfolding Decode_Inr [OF t] by blast
  from raw(2,3) have "length p = length raw - 3" by simp
  moreover from this raw(2) have "length p = 32 \<longleftrightarrow> length raw = 35" by auto
  ultimately show ?thesis
    using raw by blast
qed

theorem Decode_payload_length_witness:
  "Decode reference_codec VersionByteAccountID ''6eeieN'' = Inr [1] \<and>
   (\<exists>raw. FastBase58Decoding reference_codec ''6eeieN'' = Inr raw \<and> 3 \<le> length raw \<and>
      [1] = drop 1 (take (length raw - 2) raw) \<and>
      length [1 :: byte] = length raw - 3 \<and> (length [1 :: byte] = 32 \<longleftrightarrow> length raw = 35))"
proof -
  have c1: "crc16_Checksum reference_codec [0xdd, 1] = [90, 115]"
    by (simp add: reference_eval)
  have d: "FastBase58Decoding reference_codec ''6eeieN'' = Inr [0xdd, 1, 90, 115]"
    by (simp add: reference_eval)
  have dec: "Decode reference_codec VersionByteAccountID ''6eeieN'' = Inr [1]"
    by (simp add: key_eval c1 d)
  from Decode_payload_length [of VersionByteAccountID reference_codec "''6eeieN''" "[1]"] dec
  show ?thesis by simp
qed

section \<open>\<^verbatim>\<open>Parse\<close>\<close>

text \<open>
  C3. \<^verbatim>\<open>Parse(s)\<close> decodes with the \<^verbatim>\<open>AccountID\<close> tag first. When that fails with an error
  other than \<^verbatim>\<open>ErrInvalidVersionByte\<close>, \<^verbatim>\<open>Parse\<close> returns that error, whatever the decoding
  with the \<^verbatim>\<open>Seed\<close> tag would give; only when it fails with \<^verbatim>\<open>ErrInvalidVersionByte\<close> is the
  result that of the decoding with the \<^verbatim>\<open>Seed\<close> tag, whose error is returned if it fails
  too.
\<close>

theorem Parse_error_precedence:
  "(\<forall>err. Decode c VersionByteAccountID s = Inl err \<and> err \<noteq> ErrInvalidVersionByte \<longrightarrow>
      Parse c s = Inl err) \<and>
   (Decode c VersionByteAccountID s = Inl ErrInvalidVersionByte \<longrightarrow>
      (\<forall>err'. Decode c VersionByteSeed s = Inl err' \<longrightarrow> Parse c s = Inl err') \<and>
      (\<forall>p. Decode c VersionByteSeed s = Inr p \<longrightarrow> Parse c s = Inr (Account_Full \<lparr>seed = s\<rparr>))) \<and>
   (\<forall>p. Decode c VersionByteAccountID s = Inr p \<longrightarrow>
      Parse c s = Inr (Account_FromAddress \<lparr>address = s\<rparr>))"
  by (simp add: Parse_def)

text \<open>
  The witness has one string for each case. On \<^verbatim>\<open>6eeieM\<close> (tag \<^verbatim>\<open>0xDD\<close>, wrong checksum) the
  decoding with the \<^verbatim>\<open>Seed\<close> tag would fail with \<^verbatim>\<open>ErrInvalidVersionByte\<close>, and \<^verbatim>\<open>Parse\<close>
  returns the checksum error of the first decoding.
\<close>

theorem Parse_error_precedence_witness:
  "Decode reference_codec VersionByteAccountID ''6eeieM'' = Inl ChecksumMismatch \<and>
   Decode reference_codec VersionByteSeed ''6eeieM'' = Inl ErrInvalidVersionByte \<and>
   Parse reference_codec ''6eeieM'' = Inl ChecksumMismatch \<and>
   Decode reference_codec VersionByteAccountID ''2'' = Inl (EncodedValueTooShort 1) \<and>
   Parse reference_codec ''2'' = Inl (EncodedValueTooShort 1) \<and>
   Decode reference_codec VersionByteAccountID ''7X4UF3'' = Inl ErrInvalidVersionByte \<and>
   Decode reference_codec VersionByteSeed ''7X4UF3'' = Inl ChecksumMismatch \<and>
   Parse reference_codec ''7X4UF3'' = Inl ChecksumMismatch \<and>
   Decode reference_codec VersionByteAccountID ''7X4UF4'' = Inl ErrInvalidVersionByte \<and>
   Decode reference_codec VersionByteSeed ''7X4UF4'' = Inr [1] \<and>
   Parse reference_codec ''7X4UF4'' = Inr (Account_Full \<lparr>seed = ''7X4UF4''\<rparr>) \<and>
   Decode reference_codec VersionByteAccountID ''6eeieN'' = Inr [1] \<and>
   Parse reference_codec ''6eeieN'' = Inr (Account_FromAddress \<lparr>address = ''6eeieN''\<rparr>)"
proof -
  have b1: "FastBase58Decoding reference_codec ''6eeieM'' = Inr [0xdd, 1, 90, 114]"
    by (simp add: reference_eval)
  have b2: "FastBase58Decoding reference_codec ''2'' = Inr [1]"
    by (simp add: reference_eval)
  have b3: "FastBase58Decoding reference_codec ''7X4UF3'' = Inr [0xff, 1, 222, 18]"
    by (simp add: reference_eval)
  have b4: "FastBase58Decoding reference_codec ''7X4UF4'' = Inr [0xff, 1, 222, 19]"
    by (simp add: reference_eval)
  have b5: "FastBase58Decoding reference_codec ''6eeieN'' = Inr [0xdd, 1, 90, 115]"
    by (simp add: reference_eval)
  have c1: "crc16_Checksum reference_codec [0xdd, 1] = [90, 115]"
    by (simp add: reference_eval)
  have c2: "crc16_Checksum reference_codec [0xff, 1] = [222, 19]"
    by (simp add: reference_eval)
  have d1: "Decode reference_codec VersionByteAccountID ''6eeieM'' = Inl ChecksumMismatch"
    and d1': "Decode reference_codec VersionByteSeed ''6eeieM'' = Inl ErrInvalidVersionByte"
    by (simp_all add: key_eval b1 c1)
  have d2: "Decode reference_codec VersionByteAccountID ''2'' = Inl (EncodedValueTooShort 1)"
    by (simp add: key_eval b2)
  have d3: "Decode reference_codec VersionByteAccountID ''7X4UF3'' = Inl ErrInvalidVersionByte"
    and d3': "Decode reference_codec VersionByteSeed ''7X4UF3'' = Inl ChecksumMismatch"
    by (simp_all add: key_eval b3 c2)
  have d4: "Decode reference_codec VersionByteAccountID ''7X4UF4'' = Inl ErrInvalidVersionByte"
    and d4': "Decode reference_codec VersionByteSeed ''7X4UF4'' = Inr [1]"
    by (simp_all add: key_eval b4 c2)
  have d5: "Decode reference_codec VersionByteAccountID ''6eeieN'' = Inr [1]"
    by (simp add: key_eval b5 c1)
  from Parse_error_precedence [of reference_codec "''6eeieM''"] d1
  have p1: "Parse reference_codec ''6eeieM'' = Inl ChecksumMismatch" by simp
  from Parse_error_precedence [of reference_codec "''2''"] d2
  have p2: "Parse reference_codec ''2'' = Inl (EncodedValueTooShort 1)" by simp
  from Parse_error_precedence [of reference_codec "''7X4UF3''"] d3 d3'
  have p3: "Parse reference_codec ''7X4UF3'' = Inl ChecksumMismatch" by simp
  from Parse_error_precedence [of reference_codec "''7X4UF4''"] d4 d4'
  have p4: "Parse reference_codec ''7X4UF4'' = Inr (Account_Full \<lparr>seed = ''7X4UF4''\<rparr>)" by simp
  from Parse_error_precedence [of reference_codec "''6eeieN''"] d5
  have p5: "Parse reference_codec ''6eeieN'' = Inr (Account_FromAddress \<lparr>address = ''6eeieN''\<rparr>)"
    by simp
  from d1 d1' p1 d2 p2 d3 d3' p3 d4 d4' p4 d5 p5 show ?thesis
    by simp
qed

text \<open>
  C4. For every 32-byte payload \<open>p\<close>, \<^verbatim>\<open>Parse\<close> of the string that \<^verbatim>\<open>Encode\<close> returns for \<open>p\<close>
  with the \<^verbatim>\<open>Seed\<close> tag is the \<^verbatim>\<open>Full\<close> account on that string and no \<^verbatim>\<open>FromAddress\<close>
  account, and \<^verbatim>\<open>Parse\<close> of its encoding with the \<^verbatim>\<open>AccountID\<close> tag is the \<^verbatim>\<open>FromAddress\<close>
  account on that string and no \<^verbatim>\<open>Full\<close> account; for every base58 codec whose decoding
  inverts its encoding and every two-byte checksum.
\<close>

theorem Parse_discriminates:
  assumes "base58_round_trip c" and "checksum_two_bytes c" and "length p = 32"
  shows
    "(case Encode c VersionByteSeed p of
        Inl err \<Rightarrow> False
      | Inr s \<Rightarrow> Parse c s = Inr (Account_Full \<lparr>seed = s\<rparr>) \<and>
                 (\<forall>kp. Parse c s \<noteq> Inr (Account_FromAddress kp))) \<and>
     (case Encode c VersionByteAccountID p of
        Inl err \<Rightarrow> False
      | Inr s \<Rightarrow> Parse c s = Inr (Account_FromAddress \<lparr>address = s\<rparr>) \<and>
                 (\<forall>kp. Parse c s \<noteq> Inr (Account_Full kp)))"
proof -
  have a: "checkValidVersionByte VersionByteAccountID = None"
    and s: "checkValidVersionByte VersionByteSeed = None"
    by (simp_all add: checkValidVersionByte_None)
  note dec = Decode_Encode [OF assms(1,2)]
  show ?thesis
    by (simp add: Encode_valid a s Parse_def dec version_bytes_differ
        version_bytes_differ [symmetric])
qed

theorem Parse_discriminates_witness:
  "base58_round_trip reference_codec \<and> checksum_two_bytes reference_codec \<and>
   length (replicate 32 (7 :: byte)) = 32 \<and>
   (case Encode reference_codec VersionByteSeed (replicate 32 7) of
      Inl err \<Rightarrow> False
    | Inr s \<Rightarrow> Parse reference_codec s = Inr (Account_Full \<lparr>seed = s\<rparr>) \<and>
               (\<forall>kp. Parse reference_codec s \<noteq> Inr (Account_FromAddress kp))) \<and>
   (case Encode reference_codec VersionByteAccountID (replicate 32 7) of
      Inl err \<Rightarrow> False
    | Inr s \<Rightarrow> Parse reference_codec s = Inr (Account_FromAddress \<lparr>address = s\<rparr>) \<and>
               (\<forall>kp. Parse reference_codec s \<noteq> Inr (Account_Full kp)))"
  using Parse_discriminates [of reference_codec "replicate 32 7"]
    reference_codec_round_trip reference_codec_two_bytes
  by simp

section \<open>Capabilities of the two accounts\<close>

text \<open>
  C2. On an account that holds a \<^verbatim>\<open>FromAddress\<close>, whatever its address, \<^verbatim>\<open>Sign\<close> fails with
  \<^verbatim>\<open>ErrCannotSign\<close>, \<^verbatim>\<open>Decrypt\<close> fails with \<^verbatim>\<open>ErrCannotDecrypt\<close> and \<^verbatim>\<open>Seed\<close> fails with
  \<^verbatim>\<open>ErrNoSeed\<close>: none of the three returns a value.
\<close>

theorem FromAddress_capabilities:
  "Sign c k (Account_FromAddress kp) input = Inl ErrCannotSign \<and>
   Decrypt c k (Account_FromAddress kp) input = Inl ErrCannotDecrypt \<and>
   Seed (Account_FromAddress kp) = Inl ErrNoSeed"
  by (simp add: FromAddress_Sign_def FromAddress_Decrypt_def FromAddress_Seed_def)

theorem FromAddress_capabilities_witness:
  "Sign reference_codec placeholder_crypto (Account_FromAddress \<lparr>address = ''6eeieN''\<rparr>) [1, 2]
     = Inl ErrCannotSign \<and>
   Decrypt reference_codec placeholder_crypto (Account_FromAddress \<lparr>address = ''6eeieN''\<rparr>) [1, 2]
     = Inl ErrCannotDecrypt \<and>
   Seed (Account_FromAddress \<lparr>address = ''6eeieN''\<rparr>) = Inl ErrNoSeed"
  by (rule FromAddress_capabilities)

section \<open>Signatures of the wrong length\<close>

text \<open>
  C7. For every account, \<^verbatim>\<open>Full\<close> or \<^verbatim>\<open>FromAddress\<close>, every message and every \<open>sig\<close> whose
  length is not the ed25519 signature size of 64, \<^verbatim>\<open>Verify\<close> fails with
  \<^verbatim>\<open>ErrInvalidSignature\<close>. This holds for every value of the \<^verbatim>\<open>crypto\<close> and \<^verbatim>\<open>codec\<close>
  parameters: the result depends neither on the verification routine nor on the decoding
  of the account's key, which the length check precedes.
\<close>

theorem Verify_rejects_wrong_length:
  assumes "length sig \<noteq> ed25519_SignatureSize"
  shows "Verify c k a message sig = Inl ErrInvalidSignature"
  using assms
  by (cases a)
    (simp_all add: Full_Verify_def FromAddress_Verify_def
      ed25519_PrivateKeySize_def ed25519_SignatureSize_def)

text \<open>
  The witness takes a verification routine that accepts everything and two accounts whose
  strings do not decode.
\<close>

theorem Verify_rejects_wrong_length_witness:
  "length (replicate 63 (0 :: byte)) \<noteq> ed25519_SignatureSize \<and>
   Verify reference_codec (placeholder_crypto\<lparr>ed25519_Verify := (\<lambda>pub message sig. True)\<rparr>)
     (Account_FromAddress \<lparr>address = ''2''\<rparr>) [1, 2] (replicate 63 0) = Inl ErrInvalidSignature \<and>
   Verify reference_codec (placeholder_crypto\<lparr>ed25519_Verify := (\<lambda>pub message sig. True)\<rparr>)
     (Account_Full \<lparr>seed = ''2''\<rparr>) [1, 2] (replicate 63 0) = Inl ErrInvalidSignature"
proof -
  have len: "length (replicate 63 (0 :: byte)) \<noteq> ed25519_SignatureSize"
    by (simp add: ed25519_SignatureSize_def)
  from len Verify_rejects_wrong_length [OF len] show ?thesis
    by simp
qed

section \<open>Signing and verifying on a \<^verbatim>\<open>Full\<close> account\<close>

text \<open>
  A signature that \<^verbatim>\<open>Sign\<close> returns on a \<^verbatim>\<open>Full\<close> account verifies on that account, when the
  signatures of the primitive have the signature size and verify.
\<close>

lemma go_copy_same_length: "length src = length dst \<Longrightarrow> go_copy dst src = src"
  by (simp add: go_copy_def)

lemma Full_Verify_Sign:
  assumes "ed25519_sign_verify k" and "Sign c k (Account_Full kp) message = Inr sg"
  shows "Verify c k (Account_Full kp) message sg = Inr ()"
proof -
  from assms(2) obtain pub priv where keys: "Full_keys c k kp = Inr (pub, priv)"
    and sg: "sg = ed25519_Sign k priv message"
    by (auto simp: Full_Sign_def split: sum.splits)
  from keys obtain reader where "ed25519_GenerateKey k reader = Inr (pub, priv)"
    by (auto simp: Full_keys_def split: sum.splits)
  with assms(1) sg have len: "length sg = ed25519_SignatureSize"
    and ok: "ed25519_Verify k pub message sg"
    unfolding ed25519_sign_verify_def by blast+
  from len have "go_copy (replicate ed25519_PrivateKeySize 0) sg = sg"
    by (simp add: go_copy_same_length ed25519_PrivateKeySize_def ed25519_SignatureSize_def)
  with len ok keys show ?thesis
    by (simp add: Full_Verify_def Full_publicKey_def Let_def
        ed25519_PrivateKeySize_def ed25519_SignatureSize_def)
qed


text \<open>
  \<^verbatim>\<open>Sign\<close> does return a signature on the account that \<^verbatim>\<open>FromRawSeed\<close> makes, when the key
  generation accepts the raw seed.
\<close>

lemma Full_rawSeed_FromRawSeed:
  assumes "base58_round_trip c" and "checksum_two_bytes c"
    and "FromRawSeed c rawSeed = Inr kp"
  shows "Full_rawSeed c kp = Inr rawSeed"
proof -
  have s: "checkValidVersionByte VersionByteSeed = None"
    by (simp add: checkValidVersionByte_None)
  from assms(3) have "seed kp =
      FastBase58Encoding c (VersionByteSeed # rawSeed @ crc16_Checksum c (VersionByteSeed # rawSeed))"
    by (auto simp: FromRawSeed_def Encode_valid [OF s])
  then show ?thesis
    by (simp add: Full_rawSeed_def MustDecode_def Decode_Encode [OF assms(1,2) s s])
qed

lemma Full_Sign_FromRawSeed:
  assumes "base58_round_trip c" and "checksum_two_bytes c"
    and "FromRawSeed c rawSeed = Inr kp"
    and "ed25519_GenerateKey k rawSeed = Inr (pub, priv)"
  shows "Sign c k (Account_Full kp) message = Inr (ed25519_Sign k priv message)"
  using assms(4)
  by (simp add: Full_Sign_def Full_keys_def Full_rawSeed_FromRawSeed [OF assms(1-3)])

lemma placeholder_crypto_sign_verify: "ed25519_sign_verify placeholder_crypto"
  by (simp add: ed25519_sign_verify_def placeholder_crypto_def ed25519_SignatureSize_def)

lemma Full_Verify_Sign_reference:
  "(case FromRawSeed reference_codec (replicate 32 9) of
      Inl err \<Rightarrow> False
    | Inr kp \<Rightarrow>
        (case Sign reference_codec placeholder_crypto (Account_Full kp) [1, 2, 3] of
           Inl err \<Rightarrow> False
         | Inr sg \<Rightarrow>
             Verify reference_codec placeholder_crypto (Account_Full kp) [1, 2, 3] sg = Inr ()))"
proof -
  have s: "checkValidVersionByte VersionByteSeed = None"
    by (simp add: checkValidVersionByte_None)
  obtain kp where kp: "FromRawSeed reference_codec (replicate 32 9) = Inr kp"
    by (simp add: FromRawSeed_def Encode_valid [OF s])
  have "ed25519_GenerateKey placeholder_crypto (replicate 32 9) =
          Inr (replicate 32 9, replicate 32 9 @ replicate 32 9)"
    by (simp add: placeholder_crypto_def)
  from Full_Sign_FromRawSeed [OF reference_codec_round_trip reference_codec_two_bytes kp this]
  obtain sg where sg: "Sign reference_codec placeholder_crypto (Account_Full kp) [1, 2, 3] = Inr sg"
    by blast
  from Full_Verify_Sign [OF placeholder_crypto_sign_verify sg] kp sg show ?thesis
    by simp
qed





section \<open>Word counts\<close>

text \<open>
  C9. \<^verbatim>\<open>NewWordCount\<close> accepts exactly 12, 15, 18, 21 and 24; \<^verbatim>\<open>FromWordCount\<close> asks for 128,
  160, 192, 224 and 256 bits of entropy for them; for every other integer it returns
  \<^verbatim>\<open>ErrInvalidWordCount\<close> and leaves the random source in the state it was in, for every
  value of the \<^verbatim>\<open>bip39\<close> parameter: no entropy is drawn and no mnemonic is made.
\<close>

theorem word_count_table:
  "((\<exists>w. NewWordCount n = Inr w) \<longleftrightarrow> n \<in> {12, 15, 18, 21, 24}) \<and>
   FromWordCount b 12 rnd = FromEntropy b 128 rnd \<and>
   FromWordCount b 15 rnd = FromEntropy b 160 rnd \<and>
   FromWordCount b 18 rnd = FromEntropy b 192 rnd \<and>
   FromWordCount b 21 rnd = FromEntropy b 224 rnd \<and>
   FromWordCount b 24 rnd = FromEntropy b 256 rnd \<and>
   (n \<notin> {12, 15, 18, 21, 24} \<longrightarrow>
      NewWordCount n = Inl ErrInvalidWordCount \<and>
      FromWordCount b n rnd = (Inl ErrInvalidWordCount, rnd))"
  by (simp add: FromWordCount_def NewWordCount_def EntropySize_def TwelveWords_def
      FifteenWords_def EighteenWords_def TwentyOneWords_def TwentyFourWords_def)

theorem word_count_table_witness:
  "(13 :: int) \<notin> {12, 15, 18, 21, 24} \<and>
   NewWordCount 13 = Inl ErrInvalidWordCount \<and>
   FromWordCount counting_bip39 13 (0 :: nat) = (Inl ErrInvalidWordCount, 0) \<and>
   FromWordCount counting_bip39 12 (0 :: nat) = FromEntropy counting_bip39 128 0 \<and>
   FromEntropy counting_bip39 128 (0 :: nat) = (Inr \<lparr>RecoveryPhrase = ''abandon''\<rparr>, 1)"
proof -
  have "FromEntropy counting_bip39 128 (0 :: nat) = (Inr \<lparr>RecoveryPhrase = ''abandon''\<rparr>, 1)"
    by (simp add: FromEntropy_def counting_bip39_def)
  with word_count_table [of 13 counting_bip39 "0 :: nat"] show ?thesis
    by simp
qed

end
